theory Spec2Isabelle
  imports
    Complex_Main
    "HOL-Library.Option_ord"
    "HOL-Library.Char_ord"
    "HOL-Library.List_Lexorder"
    "HOL-Library.Multiset"
    "HOL-Library.Sublist"
begin

section \<open>Shared data model (sources/base.py)\<close>

text \<open>
  A civil date is its proleptic Gregorian ordinal (\<^verbatim>\<open>date.toordinal()\<close>), so the order
  and the equality of dates are those of the integers and \<^verbatim>\<open>d + timedelta(days=1)\<close> is
  \<open>d + 1\<close> where that is a date. A time of day is the number of microseconds since midnight.
  The bounds of Python's dates matter where the source adds to a date or converts a
  timestamp; they are written out there, in the CalDAV source.
\<close>

type_synonym date = int
type_synonym time = int

text \<open>
  \<^verbatim>\<open>CalendarEvent\<close> and \<^verbatim>\<open>TodoItem\<close> both have a field \<^verbatim>\<open>description\<close>; the event's one is
  called \<open>event_description\<close> here, since record fields share one name space.
\<close>

record CalendarEvent =
  title :: string
  start_time :: "time option"
  end_time :: "time option"
  all_day :: bool
  location :: "string option"
  event_description :: "string option"
  calendar_name :: string

record TodoItem =
  description :: string
  "context" :: string
  project :: string
  due_date :: "date option"
  "notes" :: string
  priority :: int

record PlannerData =
  target_date :: date
  events :: "CalendarEvent list"
  todos :: "TodoItem list"

text \<open>Exceptions are values; the logger is a list of records, newest last.\<close>

datatype exn =
  ValueError | TypeError | ZeroDivisionError | IndexError | KeyError | OverflowError | LibraryError

datatype log_level = DEBUG | INFO | WARNING | ERROR

type_synonym log = "(log_level \<times> string) list"

section \<open>Tracks source (sources/tracks\_source.py)\<close>

text \<open>
  One \<^verbatim>\<open><todo>\<close> element, as \<^verbatim>\<open>findtext(name, "")\<close> reads its children: a missing child
  and an empty child both give the empty string.
\<close>

record todo_el =
  el_description :: string
  el_context_id :: string
  el_project_id :: string
  el_due :: string
  el_notes :: string

text \<open>
  The two standard-library parsers the loop calls are parameters of the model:
  \<open>py_int\<close> is \<^verbatim>\<open>int(s)\<close> and \<open>fromisoformat\<close> is \<^verbatim>\<open>date.fromisoformat(s)\<close>, with
  \<open>None\<close> for the \<^verbatim>\<open>ValueError\<close> either raises on a string it does not accept.
\<close>

record pylib =
  py_int :: "string \<Rightarrow> int option"
  fromisoformat :: "string \<Rightarrow> date option"

text \<open>\<^verbatim>\<open>str.isspace\<close> on the code points below 256, and \<^verbatim>\<open>str.strip()\<close>.\<close>

definition isspace :: "char \<Rightarrow> bool" where
  "isspace c = (of_char c \<in> {9, 10, 11, 12, 13, 28, 29, 30, 31, 32, 133, 160 :: nat})"

definition strip :: "string \<Rightarrow> string" where
  "strip s = rev (dropWhile isspace (rev (dropWhile isspace s)))"

text \<open>\<^verbatim>\<open>s.split("T")[0]\<close>: the text before the first \<^verbatim>\<open>T\<close>, all of it when there is none.\<close>

definition split_T_head :: "string \<Rightarrow> string" where
  "split_T_head s = takeWhile (\<lambda>c. c \<noteq> CHR ''T'') s"

text \<open>
  \<^verbatim>\<open>contexts.get(int(context_id), "") if context_id else ""\<close>: the \<^verbatim>\<open>int\<close> call raises
  \<^verbatim>\<open>ValueError\<close> on a non-numeric id, and nothing in \<^verbatim>\<open>_fetch_todos\<close> catches it.
\<close>

definition resolve_name :: "pylib \<Rightarrow> (int \<rightharpoonup> string) \<Rightarrow> string \<Rightarrow> exn + string" where
  "resolve_name py names ident =
     (if ident = [] then Inr []
      else case py_int py ident of
             None \<Rightarrow> Inl ValueError
           | Some k \<Rightarrow> Inr (case names k of None \<Rightarrow> [] | Some n \<Rightarrow> n))"

text \<open>The due-date block: a string that does not parse leaves \<open>None\<close> and logs a warning.\<close>

definition parse_due :: "pylib \<Rightarrow> string \<Rightarrow> date option \<times> log" where
  "parse_due py due_str =
     (if due_str = [] then (None, [])
      else case fromisoformat py (split_T_head due_str) of
             Some d \<Rightarrow> (Some d, [])
           | None \<Rightarrow> (None, [(WARNING, ''Could not parse due date: %r'')]))"

text \<open>
  One iteration of the loop of \<^verbatim>\<open>_fetch_todos\<close>: \<open>Inr None\<close> is the \<^verbatim>\<open>continue\<close> on an empty
  description, \<open>Inr (Some t)\<close> the appended item, \<open>Inl e\<close> an exception leaving the loop.
  The second component is what the iteration logged.
\<close>

definition parse_todo_el ::
  "pylib \<Rightarrow> (int \<rightharpoonup> string) \<Rightarrow> (int \<rightharpoonup> string) \<Rightarrow> todo_el \<Rightarrow> (exn + TodoItem option) \<times> log" where
  "parse_todo_el py contexts projects el =
     (let description = strip (el_description el) in
      if description = [] then (Inr None, [])
      else case resolve_name py contexts (el_context_id el) of
        Inl e \<Rightarrow> (Inl e, [])
      | Inr context_name \<Rightarrow>
          (case resolve_name py projects (el_project_id el) of
             Inl e \<Rightarrow> (Inl e, [])
           | Inr project_name \<Rightarrow>
               (let (due, lg) = parse_due py (el_due el) in
                (Inr (Some \<lparr>description = description, context = context_name,
                            project = project_name, due_date = due,
                            notes = strip (el_notes el), priority = 0\<rparr>), lg))))"

fun fetch_todos_loop ::
  "pylib \<Rightarrow> (int \<rightharpoonup> string) \<Rightarrow> (int \<rightharpoonup> string) \<Rightarrow> todo_el list \<Rightarrow> TodoItem list \<Rightarrow> log
     \<Rightarrow> (exn + TodoItem list) \<times> log" where
  "fetch_todos_loop py contexts projects [] acc lg = (Inr acc, lg)"
| "fetch_todos_loop py contexts projects (el # els) acc lg =
     (case parse_todo_el py contexts projects el of
        (Inl e, l) \<Rightarrow> (Inl e, lg @ l)
      | (Inr None, l) \<Rightarrow> fetch_todos_loop py contexts projects els acc (lg @ l)
      | (Inr (Some t), l) \<Rightarrow> fetch_todos_loop py contexts projects els (acc @ [t]) (lg @ l))"

text \<open>
  What the HTTP request and the XML parser hand to \<^verbatim>\<open>_fetch_todos\<close>: a failed request
  (caught: an error is logged and the list is empty), a body that is not XML (the parser's
  exception is not caught), or the \<^verbatim>\<open><todo>\<close> elements.
\<close>

datatype todos_response = RequestException | ParseError | Elements "todo_el list"

definition fetch_todos ::
  "pylib \<Rightarrow> (int \<rightharpoonup> string) \<Rightarrow> (int \<rightharpoonup> string) \<Rightarrow> todos_response \<Rightarrow> log
     \<Rightarrow> (exn + TodoItem list) \<times> log" where
  "fetch_todos py contexts projects resp lg =
     (case resp of
        RequestException \<Rightarrow> (Inr [], lg @ [(ERROR, ''Failed to fetch todos: %s'')])
      | ParseError \<Rightarrow> (Inl LibraryError, lg)
      | Elements els \<Rightarrow>
          (case fetch_todos_loop py contexts projects els [] lg of
             (Inl e, lg') \<Rightarrow> (Inl e, lg')
           | (Inr ts, lg') \<Rightarrow> (Inr ts, lg' @ [(DEBUG, ''Parsed %d active todos'')])))"

text \<open>
  \<^verbatim>\<open>[t for t in todos if t.due_date and t.due_date <= target_date]\<close>: a \<^verbatim>\<open>date\<close> is always
  truthy, so the first conjunct is "the due date is set".
\<close>

definition is_relevant :: "date \<Rightarrow> TodoItem \<Rightarrow> bool" where
  "is_relevant target t = (case due_date t of None \<Rightarrow> False | Some d \<Rightarrow> d \<le> target)"

text \<open>
  \<^verbatim>\<open>list.sort(key=k, reverse=True)\<close>: descending by key and stable (items with equal
  keys keep their order). The key is the \<^verbatim>\<open>due_date\<close> field itself; the order on
  \<open>date option\<close> agrees with Python's on the dates, and no \<open>None\<close> key is ever compared,
  since the list sorted has passed the filter.
\<close>

fun insort_desc :: "('a \<Rightarrow> 'k::linorder) \<Rightarrow> 'a \<Rightarrow> 'a list \<Rightarrow> 'a list" where
  "insort_desc k x [] = [x]"
| "insort_desc k x (y # ys) = (if k y \<le> k x then x # y # ys else y # insort_desc k x ys)"

definition sort_reverse :: "('a \<Rightarrow> 'k::linorder) \<Rightarrow> 'a list \<Rightarrow> 'a list" where
  "sort_reverse k xs = foldr (insort_desc k) xs []"

definition relevant_todos :: "TodoItem list \<Rightarrow> date \<Rightarrow> TodoItem list" where
  "relevant_todos ts target = sort_reverse due_date (filter (is_relevant target) ts)"

text \<open>
  \<^verbatim>\<open>TracksSource.fetch\<close>. The context and project tables come from two earlier requests and
  are taken as given. An exception of \<^verbatim>\<open>_fetch_todos\<close> leaves \<^verbatim>\<open>fetch\<close> before \<^verbatim>\<open>data\<close> is
  touched.
\<close>

definition fetch ::
  "pylib \<Rightarrow> (int \<rightharpoonup> string) \<Rightarrow> (int \<rightharpoonup> string) \<Rightarrow> todos_response \<Rightarrow> date \<Rightarrow> PlannerData \<Rightarrow> log
     \<Rightarrow> exn option \<times> PlannerData \<times> log" where
  "fetch py contexts projects resp target data lg =
     (case fetch_todos py contexts projects resp
             (lg @ [(INFO, ''Fetching todos from Tracks at %s'')]) of
        (Inl e, lg') \<Rightarrow> (Some e, data, lg')
      | (Inr ts, lg') \<Rightarrow>
          (None,
           data\<lparr>todos := todos data @ relevant_todos ts target\<rparr>,
           lg' @ [(DEBUG, ''Todos: %d total, %d active today. target_date=%s. Due dates (desc): %s''),
                  (INFO, ''Added %d/%d todos from Tracks (filtered by deadline <= %s)'')]))"

section \<open>CalDAV source (sources/caldav\_source.py)\<close>

subsection \<open>Dates and timestamps\<close>

text \<open>
  A \<^verbatim>\<open>datetime\<close> is its wall-clock reading, in microseconds since midnight of ordinal 0,
  and its \<^verbatim>\<open>tzinfo\<close>, absent on a naive value. A \<^verbatim>\<open>tzinfo\<close> object is a number: Python
  tests these objects for identity (\<^verbatim>\<open>is\<close>), which is equality of the numbers. What the
  objects compute is a parameter: \<open>utcoffset z t w\<close> is the offset of zone \<open>t\<close> at the
  wall-clock reading \<open>w\<close>, and \<open>fromutc z t u\<close> the wall-clock reading in \<open>t\<close> of the UTC
  reading \<open>u\<close>. The configured zone \<^verbatim>\<open>self.tz\<close> is such an object: \<^verbatim>\<open>tz.gettz\<close> has found the zone
  named in the configuration.
\<close>

type_synonym tz = nat

record zones =
  utcoffset :: "tz \<Rightarrow> int \<Rightarrow> int"
  fromutc :: "tz \<Rightarrow> int \<Rightarrow> int"

record datetime =
  wall :: int
  tzinfo :: "tz option"

datatype dtval = Date date | DateTime datetime

definition usec_per_day :: int where
  "usec_per_day = 86400000000"

text \<open>
  Python's dates run from ordinal 1 (\<^verbatim>\<open>date.min\<close>) to ordinal 3652059 (\<^verbatim>\<open>date.max\<close>, the last
  day of the year 9999), and its timestamps over the same days. Arithmetic that leaves
  the range raises \<^verbatim>\<open>OverflowError\<close>.
\<close>

definition date_max :: date where
  "date_max = 3652059"

definition valid_date :: "date \<Rightarrow> bool" where
  "valid_date d = (1 \<le> d \<and> d \<le> date_max)"

definition valid_wall :: "int \<Rightarrow> bool" where
  "valid_wall w = (usec_per_day \<le> w \<and> w < (date_max + 1) * usec_per_day)"

text \<open>\<^verbatim>\<open>d + timedelta(days=n)\<close> on a date, and \<^verbatim>\<open>dt + delta\<close> on a timestamp.\<close>

definition add_days :: "date \<Rightarrow> int \<Rightarrow> exn + date" where
  "add_days d n = (if valid_date (d + n) then Inr (d + n) else Inl OverflowError)"

definition add_usec :: "datetime \<Rightarrow> int \<Rightarrow> exn + datetime" where
  "add_usec dt delta =
     (if valid_wall (wall dt + delta) then Inr (dt\<lparr>wall := wall dt + delta\<rparr>)
      else Inl OverflowError)"

definition date_of :: "datetime \<Rightarrow> date" where
  "date_of dt = wall dt div usec_per_day"

definition time_of :: "datetime \<Rightarrow> time" where
  "time_of dt = wall dt mod usec_per_day"

text \<open>\<^verbatim>\<open>datetime.combine(d, time.min).replace(tzinfo=tz)\<close>.\<close>

definition combine_min :: "date \<Rightarrow> tz \<Rightarrow> datetime" where
  "combine_min d t = \<lparr>wall = d * usec_per_day, tzinfo = Some t\<rparr>"

text \<open>
  \<^verbatim>\<open>dt.astimezone(tz)\<close> on an aware \<open>dt\<close> with zone \<open>mytz\<close> and reading \<open>w\<close>: the value itself
  when \<^verbatim>\<open>tz is mytz\<close>; otherwise \<^verbatim>\<open>tz.fromutc((dt - offset).replace(tzinfo=tz))\<close>, where the
  subtraction and the result of \<^verbatim>\<open>fromutc\<close> must stay in the range of timestamps. The source
  calls it on aware values only.
\<close>

definition astimezone :: "zones \<Rightarrow> tz \<Rightarrow> int \<Rightarrow> tz \<Rightarrow> exn + datetime" where
  "astimezone z mytz w t =
     (if t = mytz then Inr \<lparr>wall = w, tzinfo = Some mytz\<rparr>
      else
        (let utc = w - utcoffset z mytz w
         in if \<not> valid_wall utc then Inl OverflowError
            else if \<not> valid_wall (fromutc z t utc) then Inl OverflowError
            else Inr \<lparr>wall = fromutc z t utc, tzinfo = Some t\<rparr>))"

text \<open>
  \<^verbatim>\<open>a - b\<close> on two \<^verbatim>\<open>datetime\<close>s, in microseconds: the difference of the readings when both
  carry the same \<^verbatim>\<open>tzinfo\<close> (or none), the difference in UTC for two zones, and
  \<^verbatim>\<open>TypeError\<close> for a naive and an aware value. A \<^verbatim>\<open>timedelta\<close> holds every difference of two
  timestamps.
\<close>

definition sub_datetime :: "zones \<Rightarrow> datetime \<Rightarrow> datetime \<Rightarrow> exn + int" where
  "sub_datetime z a b =
     (if tzinfo a = tzinfo b then Inr (wall a - wall b)
      else case (tzinfo a, tzinfo b) of
             (Some ta, Some tb) \<Rightarrow>
               Inr ((wall a - utcoffset z ta (wall a)) - (wall b - utcoffset z tb (wall b)))
           | _ \<Rightarrow> Inl TypeError)"

text \<open>\<^verbatim>\<open>dtend_val - orig_start\<close>: a \<^verbatim>\<open>date\<close> minus a \<^verbatim>\<open>datetime\<close> is a \<^verbatim>\<open>TypeError\<close>.\<close>

definition sub_dtval :: "zones \<Rightarrow> dtval \<Rightarrow> datetime \<Rightarrow> exn + int" where
  "sub_dtval z e s = (case e of Date d \<Rightarrow> Inl TypeError | DateTime dt \<Rightarrow> sub_datetime z dt s)"

subsection \<open>Calendar components\<close>

text \<open>
  The \<^verbatim>\<open>RRULE\<close> property is one \<^verbatim>\<open>vRecur\<close> or a list of them; a \<^verbatim>\<open>vRecur\<close> is kept as the text
  \<^verbatim>\<open>to_ical().decode('utf-8')\<close> gives. A \<^verbatim>\<open>vRecur\<close> is a dictionary, truthy when it has a
  part, which is when its text is not empty; a list is truthy when it has an element.
\<close>

datatype rrule_prop = VRecur string | VRecurList "string list"

fun rrule_truthy :: "rrule_prop \<Rightarrow> bool" where
  "rrule_truthy (VRecur s) = (s \<noteq> [])"
| "rrule_truthy (VRecurList l) = (l \<noteq> [])"

fun rr_ical_of :: "rrule_prop \<Rightarrow> exn + string" where
  "rr_ical_of (VRecur s) = Inr s"
| "rr_ical_of (VRecurList []) = Inl IndexError"
| "rr_ical_of (VRecurList (s # _)) = Inr s"

text \<open>One component of \<^verbatim>\<open>ical.walk()\<close>, with the properties \<^verbatim>\<open>_parse_event\<close> reads.\<close>

record component =
  comp_name :: string
  SUMMARY :: "string option"
  DTSTART :: "dtval option"
  DTEND :: "dtval option"
  LOCATION :: "string option"
  DESCRIPTION :: "string option"
  RRULE :: "rrule_prop option"

subsection \<open>Recurrence rules\<close>

text \<open>
  \<^verbatim>\<open>dateutil\<close> is not part of the repository. \<^verbatim>\<open>rrule.rrulestr(text, dtstart=d)\<close> is a
  parameter: it raises, or gives a rule. A rule is what its iterator yields, in that
  order: wall-clock readings (the occurrences carry the \<^verbatim>\<open>tzinfo\<close> of \<open>d\<close>), or an exception
  raised on the way; an endless rule is given as far as the first occurrence past the
  window. \<^verbatim>\<open>rule.between(after, before, inc=True)\<close> reads the iterator until an occurrence
  is later than \<^verbatim>\<open>before\<close> and returns the occurrences from the first one that is not
  earlier than \<^verbatim>\<open>after\<close>; the two bounds are \<open>after_dt\<close> and \<open>before_dt\<close> below.
\<close>

type_synonym rrule = "(exn + int) list"

fun between_inc :: "rrule \<Rightarrow> int \<Rightarrow> int \<Rightarrow> bool \<Rightarrow> exn + int list" where
  "between_inc [] after_dt before_dt started = Inr []"
| "between_inc (Inl e # gen) after_dt before_dt started = Inl e"
| "between_inc (Inr i # gen) after_dt before_dt started =
     (if i > before_dt then Inr []
      else if \<not> started \<and> \<not> i \<ge> after_dt then between_inc gen after_dt before_dt False
      else (case between_inc gen after_dt before_dt True of
              Inl e \<Rightarrow> Inl e
            | Inr l \<Rightarrow> Inr (i # l)))"

text \<open>
  The start the rule is seeded with (\<^verbatim>\<open>start_dt_rr\<close>): a naive timestamp takes the
  configured zone, an aware one is converted to it, a date is midnight in it.
\<close>

definition start_dt_rr :: "zones \<Rightarrow> tz \<Rightarrow> dtval \<Rightarrow> exn + datetime" where
  "start_dt_rr z t dtstart_val =
     (case dtstart_val of
        DateTime dt \<Rightarrow>
          (case tzinfo dt of
             None \<Rightarrow> Inr (dt\<lparr>tzinfo := Some t\<rparr>)
           | Some mytz \<Rightarrow> astimezone z mytz (wall dt) t)
      | Date d \<Rightarrow> Inr (combine_min d t))"

text \<open>
  The block that moves start and end to the instance found, for a timestamp start. The
  start is assigned before the new end is computed, so an \<^verbatim>\<open>OverflowError\<close> of
  \<^verbatim>\<open>instance_dt + duration\<close> leaves the new start with the old end; a \<^verbatim>\<open>TypeError\<close> of
  \<^verbatim>\<open>dtend_val - orig_start\<close> comes before both assignments. The result is the pair of
  values when the block is left, and whether it was left by an exception.
\<close>

definition shift_to_instance ::
  "zones \<Rightarrow> tz \<Rightarrow> datetime \<Rightarrow> datetime \<Rightarrow> dtval option \<Rightarrow> (dtval \<times> dtval option) \<times> exn option" where
  "shift_to_instance z t instance_dt dt dtend_val =
     (let orig_start = (case tzinfo dt of None \<Rightarrow> dt\<lparr>tzinfo := Some t\<rparr> | Some mytz \<Rightarrow> dt)
      in case dtend_val of
           None \<Rightarrow> ((DateTime instance_dt, None), None)
         | Some e \<Rightarrow>
             (case sub_dtval z e orig_start of
                Inl x \<Rightarrow> ((DateTime dt, dtend_val), Some x)
              | Inr duration \<Rightarrow>
                  (case add_usec instance_dt duration of
                     Inl x \<Rightarrow> ((DateTime instance_dt, dtend_val), Some x)
                   | Inr new_end \<Rightarrow> ((DateTime instance_dt, Some (DateTime new_end)), None))))"

text \<open>
  The recurring branch of \<^verbatim>\<open>_parse_event\<close>, from \<^verbatim>\<open>try\<close> to the end of \<^verbatim>\<open>except\<close>, given the
  two ends of the window, which are computed before it: \<open>Skip\<close> is the \<^verbatim>\<open>continue\<close>,
  \<open>Keep s e\<close> goes on to build the event with \<^verbatim>\<open>dtstart_val = s\<close> and \<^verbatim>\<open>dtend_val = e\<close>. Every
  exception inside is caught: a warning is logged and the two values are as the
  exception left them.
\<close>

datatype recurrence = Skip | Keep dtval "dtval option"

definition check_recurrence ::
  "zones \<Rightarrow> (string \<Rightarrow> int \<Rightarrow> exn + rrule) \<Rightarrow> tz \<Rightarrow> datetime \<Rightarrow> datetime \<Rightarrow> rrule_prop \<Rightarrow> dtval
     \<Rightarrow> dtval option \<Rightarrow> recurrence \<times> log" where
  "check_recurrence z rrulestr t target_start target_end rrule_prop dtstart_val dtend_val =
     (if \<not> rrule_truthy rrule_prop then (Keep dtstart_val dtend_val, [])
      else
        (let warn = [(WARNING, ''Failed to check recurrence for %s: %s'')] in
         case rr_ical_of rrule_prop of
           Inl e \<Rightarrow> (Keep dtstart_val dtend_val, warn)
         | Inr rr_ical \<Rightarrow>
        (let lg0 = [(DEBUG, ''Checking recurrence for '' @ [CHR 0x27] @ ''%s'' @ [CHR 0x27] @
                            ''. RRULE: %s Start: %s'')]
         in case start_dt_rr z t dtstart_val of
              Inl e \<Rightarrow> (Keep dtstart_val dtend_val, lg0 @ warn)
            | Inr seed \<Rightarrow>
           (case rrulestr rr_ical (wall seed) of
              Inl e \<Rightarrow> (Keep dtstart_val dtend_val, lg0 @ warn)
            | Inr rule \<Rightarrow>
                (case between_inc rule (wall target_start) (wall target_end) False of
                   Inl e \<Rightarrow> (Keep dtstart_val dtend_val, lg0 @ warn)
                 | Inr [] \<Rightarrow>
                     (Skip, lg0 @ [(DEBUG, '' - No occurrence on target date. Skipping.'')])
                 | Inr (i # _) \<Rightarrow>
                     (let lg1 = lg0 @ [(DEBUG, '' - Found occurrence: %s'')];
                          instance_dt = \<lparr>wall = i, tzinfo = Some t\<rparr>
                      in case dtstart_val of
                           Date d \<Rightarrow> (Keep dtstart_val dtend_val, lg1)
                         | DateTime dt \<Rightarrow>
                             (case shift_to_instance z t instance_dt dt dtend_val of
                                ((s', e'), None) \<Rightarrow> (Keep s' e', lg1)
                              | ((s', e'), Some x) \<Rightarrow> (Keep s' e', lg1 @ warn))))))))"

subsection \<open>Building the event\<close>

text \<open>
  The civil date the non-recurring branch compares with the target date; the conversion
  of an aware start is outside every \<^verbatim>\<open>try\<close> of \<^verbatim>\<open>_parse_event\<close>.
\<close>

definition check_date :: "zones \<Rightarrow> tz \<Rightarrow> dtval \<Rightarrow> exn + date" where
  "check_date z t dtstart_val =
     (case dtstart_val of
        DateTime dt \<Rightarrow>
          (case tzinfo dt of
             Some mytz \<Rightarrow>
               (case astimezone z mytz (wall dt) t of
                  Inl e \<Rightarrow> Inl e
                | Inr local \<Rightarrow> Inr (date_of local))
           | None \<Rightarrow> Inr (date_of (dt\<lparr>tzinfo := Some t\<rparr>)))
      | Date d \<Rightarrow> Inr d)"

text \<open>\<^verbatim>\<open>dt.astimezone(self.tz)\<close> under the guard \<^verbatim>\<open>dt.tzinfo\<close>: a naive value stays as it is.\<close>

definition to_local :: "zones \<Rightarrow> tz \<Rightarrow> datetime \<Rightarrow> exn + datetime" where
  "to_local z t dt =
     (case tzinfo dt of None \<Rightarrow> Inr dt | Some mytz \<Rightarrow> astimezone z mytz (wall dt) t)"

text \<open>
  The construction of the \<^verbatim>\<open>CalendarEvent\<close>: for a timestamp start the start is converted
  first, then the end when it is an aware timestamp; either conversion can raise.
\<close>

definition build_event ::
  "zones \<Rightarrow> tz \<Rightarrow> string \<Rightarrow> string option \<Rightarrow> string option \<Rightarrow> string \<Rightarrow> dtval \<Rightarrow> dtval option
     \<Rightarrow> exn + CalendarEvent" where
  "build_event z t summary loc descr cal_name dtstart_val dtend_val =
     (case dtstart_val of
        Date d \<Rightarrow>
          Inr \<lparr>title = summary, start_time = None, end_time = None, all_day = True,
               location = loc, event_description = descr, calendar_name = cal_name\<rparr>
      | DateTime dt \<Rightarrow>
          (case to_local z t dt of
             Inl e \<Rightarrow> Inl e
           | Inr local_start \<Rightarrow>
               (case (case dtend_val of
                        Some (DateTime en) \<Rightarrow>
                          (case to_local z t en of
                             Inl e \<Rightarrow> Inl e
                           | Inr local_end \<Rightarrow> Inr (Some (time_of local_end)))
                      | _ \<Rightarrow> Inr None) of
                  Inl e \<Rightarrow> Inl e
                | Inr end_t \<Rightarrow>
                    Inr \<lparr>title = summary, start_time = Some (time_of local_start),
                         end_time = end_t, all_day = False,
                         location = loc, event_description = descr,
                         calendar_name = cal_name\<rparr>)))"

text \<open>\<^verbatim>\<open>str(component.get(key, "")) or None\<close>.\<close>

definition str_or_None :: "string option \<Rightarrow> string option" where
  "str_or_None v = (case v of None \<Rightarrow> None | Some s \<Rightarrow> if s = [] then None else Some s)"

text \<open>
  The end of the loop body: the event is built and appended. An exception of the
  construction leaves the loop with nothing appended.
\<close>

definition add_event ::
  "zones \<Rightarrow> tz \<Rightarrow> string \<Rightarrow> component \<Rightarrow> dtval \<Rightarrow> dtval option \<Rightarrow> PlannerData \<times> log
     \<Rightarrow> PlannerData \<times> log \<times> exn option" where
  "add_event z t cal_name c dtstart_val dtend_val st =
     (case st of (data, lg) \<Rightarrow>
        (case build_event z t (case SUMMARY c of None \<Rightarrow> ''Untitled'' | Some s \<Rightarrow> s)
                (str_or_None (LOCATION c)) (str_or_None (DESCRIPTION c)) cal_name
                dtstart_val dtend_val of
           Inl e \<Rightarrow> (data, lg, Some e)
         | Inr event \<Rightarrow>
             (data\<lparr>events := events data @ [event]\<rparr>,
              lg @ [(DEBUG, ''Added event: %s (%s)'')], None)))"

text \<open>
  The body of the loop of \<^verbatim>\<open>_parse_event\<close>, for one component: the data and the log as the
  body leaves them, and the exception when it raises. For every \<^verbatim>\<open>VEVENT\<close> with a start the
  two ends of the target day are computed first, outside the \<^verbatim>\<open>try\<close>:
  \<^verbatim>\<open>target_date + timedelta(days=1)\<close> raises \<^verbatim>\<open>OverflowError\<close> on the last date.
\<close>

definition parse_component ::
  "zones \<Rightarrow> (string \<Rightarrow> int \<Rightarrow> exn + rrule) \<Rightarrow> tz \<Rightarrow> string \<Rightarrow> date \<Rightarrow> component
     \<Rightarrow> PlannerData \<times> log \<Rightarrow> PlannerData \<times> log \<times> exn option" where
  "parse_component z rrulestr t cal_name target c st =
     (case st of (data, lg) \<Rightarrow>
        if comp_name c \<noteq> ''VEVENT'' then (data, lg, None)
        else case DTSTART c of
          None \<Rightarrow> (data, lg, None)
        | Some dtstart_val \<Rightarrow>
            (case add_days target 1 of
               Inl e \<Rightarrow> (data, lg, Some e)
             | Inr next_day \<Rightarrow>
            (let target_start = combine_min target t;
                 target_end = combine_min next_day t
             in case RRULE c of
               None \<Rightarrow>
                 (case check_date z t dtstart_val of
                    Inl e \<Rightarrow> (data, lg, Some e)
                  | Inr check_d \<Rightarrow>
                      if check_d \<noteq> target
                      then (data, lg @ [(DEBUG, ''Skipping non-matching date event: %s (%s)'')],
                            None)
                      else add_event z t cal_name c dtstart_val (DTEND c) (data, lg))
             | Some rrule_prop \<Rightarrow>
                 (case check_recurrence z rrulestr t target_start target_end rrule_prop
                         dtstart_val (DTEND c) of
                    (Skip, l) \<Rightarrow> (data, lg @ l, None)
                  | (Keep s e, l) \<Rightarrow> add_event z t cal_name c s e (data, lg @ l)))))"

text \<open>\<^verbatim>\<open>_parse_event\<close>: the loop over the components, left by the first exception.\<close>

fun parse_event ::
  "zones \<Rightarrow> (string \<Rightarrow> int \<Rightarrow> exn + rrule) \<Rightarrow> tz \<Rightarrow> string \<Rightarrow> date \<Rightarrow> component list
     \<Rightarrow> PlannerData \<times> log \<Rightarrow> PlannerData \<times> log \<times> exn option" where
  "parse_event z rrulestr t cal_name target [] st = (fst st, snd st, None)"
| "parse_event z rrulestr t cal_name target (c # comps) st =
     (case parse_component z rrulestr t cal_name target c st of
        (data, lg, Some e) \<Rightarrow> (data, lg, Some e)
      | (data, lg, None) \<Rightarrow> parse_event z rrulestr t cal_name target comps (data, lg))"

text \<open>
  The loop of \<^verbatim>\<open>_fetch_calendar_events\<close> over the search results. A result whose calendar
  data cannot be read (\<^verbatim>\<open>icalendar_instance\<close> raises) is an \<open>Inl\<close>. Every exception of
  \<^verbatim>\<open>_parse_event\<close> is caught: a warning is logged and the loop goes on with the next result.
\<close>

fun parse_results ::
  "zones \<Rightarrow> (string \<Rightarrow> int \<Rightarrow> exn + rrule) \<Rightarrow> tz \<Rightarrow> string \<Rightarrow> date
     \<Rightarrow> (exn + component list) list \<Rightarrow> PlannerData \<times> log \<Rightarrow> PlannerData \<times> log" where
  "parse_results z rrulestr t cal_name target [] st = st"
| "parse_results z rrulestr t cal_name target (Inl e # rest) st =
     parse_results z rrulestr t cal_name target rest
       (fst st, snd st @ [(WARNING, ''Failed to parse event from %s: %s'')])"
| "parse_results z rrulestr t cal_name target (Inr comps # rest) st =
     (case parse_event z rrulestr t cal_name target comps st of
        (data, lg, Some e) \<Rightarrow>
          parse_results z rrulestr t cal_name target rest
            (data, lg @ [(WARNING, ''Failed to parse event from %s: %s'')])
      | (data, lg, None) \<Rightarrow> parse_results z rrulestr t cal_name target rest (data, lg))"



subsection \<open>Notions for stating the properties\<close>

text \<open>
  The start's civil date in the words of the specification: a bare civil date as it is,
  a naive timestamp read as being in the configured zone, an aware timestamp converted to
  the configured zone; there is none when the conversion leaves the range of timestamps.
\<close>

definition start_civil_date :: "zones \<Rightarrow> tz \<Rightarrow> dtval \<Rightarrow> date option" where
  "start_civil_date z t s =
     (case s of
        Date d \<Rightarrow> Some d
      | DateTime dt \<Rightarrow>
          (case tzinfo dt of
             None \<Rightarrow> Some (wall dt div usec_per_day)
           | Some mytz \<Rightarrow>
               (case astimezone z mytz (wall dt) t of
                  Inl e \<Rightarrow> None
                | Inr local \<Rightarrow> Some (wall local div usec_per_day))))"

text \<open>
  The anchor start normalised to the configured zone, as a wall-clock reading in that
  zone: midnight of a bare date, the reading of a naive timestamp, the converted reading
  of an aware one; there is none when the conversion leaves the range of timestamps.
\<close>

definition normalized_anchor :: "zones \<Rightarrow> tz \<Rightarrow> dtval \<Rightarrow> int option" where
  "normalized_anchor z t s =
     (case s of
        Date d \<Rightarrow> Some (d * usec_per_day)
      | DateTime dt \<Rightarrow>
          (case tzinfo dt of
             None \<Rightarrow> Some (wall dt)
           | Some mytz \<Rightarrow>
               (if mytz = t then Some (wall dt)
                else if valid_wall (wall dt - utcoffset z mytz (wall dt))
                      \<and> valid_wall (fromutc z t (wall dt - utcoffset z mytz (wall dt)))
                     then Some (fromutc z t (wall dt - utcoffset z mytz (wall dt)))
                     else None)))"

text \<open>
  The event \<^verbatim>\<open>_parse_event\<close> builds for a component from a start and an end value, and the
  title \<^verbatim>\<open>str(component.get("SUMMARY", "Untitled"))\<close>.
\<close>

definition summary_of :: "component \<Rightarrow> string" where
  "summary_of c = (case SUMMARY c of None \<Rightarrow> ''Untitled'' | Some s \<Rightarrow> s)"

definition event_of ::
  "zones \<Rightarrow> tz \<Rightarrow> string \<Rightarrow> component \<Rightarrow> dtval \<Rightarrow> dtval option \<Rightarrow> exn + CalendarEvent" where
  "event_of z t cal_name c s e =
     build_event z t (summary_of c) (str_or_None (LOCATION c)) (str_or_None (DESCRIPTION c))
       cal_name s e"





section \<open>Calendar colours (pdf\_generator.py)\<close>

type_synonym color = string

definition CALENDAR_COLORS :: "(color \<times> color) list" where
  "CALENDAR_COLORS =
     [(''#e8f0fe'', ''#4285f4''),
      (''#e6f4ea'', ''#34a853''),
      (''#fef7e0'', ''#fbbc04''),
      (''#fce8e6'', ''#ea4335''),
      (''#f3e8fd'', ''#a142f4'')]"

text \<open>
  \<^verbatim>\<open>_calendar_color_map\<close> is a \<^verbatim>\<open>dict\<close> from names to palette indices. It is kept as the
  list of its items in insertion order: a key is only ever added when it is absent, so
  \<^verbatim>\<open>len\<close> is the length of the list.
\<close>

type_synonym color_map = "(string \<times> nat) list"

record PlannerPDFGenerator =
  day_start_hour :: int
  day_end_hour :: int
  calendar_color_map :: color_map

text \<open>\<^verbatim>\<open>__init__\<close> stores the two hours as they come and starts with an empty colour map.\<close>

definition PlannerPDFGenerator_init :: "int \<Rightarrow> int \<Rightarrow> PlannerPDFGenerator" where
  "PlannerPDFGenerator_init start_hour end_hour =
     \<lparr>day_start_hour = start_hour, day_end_hour = end_hour, calendar_color_map = []\<rparr>"

text \<open>
  \<^verbatim>\<open>_get_calendar_color\<close>, on the colour map. The two subscripts raise outside their range
  (\<^verbatim>\<open>KeyError\<close>, \<^verbatim>\<open>IndexError\<close>).
\<close>

definition get_calendar_color :: "color_map \<Rightarrow> string \<Rightarrow> (exn + color \<times> color) \<times> color_map" where
  "get_calendar_color m cal_name =
     (let m' = (if cal_name \<notin> set (map fst m)
                then m @ [(cal_name, length m mod length CALENDAR_COLORS)]
                else m)
      in (case map_of m' cal_name of
            None \<Rightarrow> Inl KeyError
          | Some idx \<Rightarrow> if idx < length CALENDAR_COLORS then Inr (CALENDAR_COLORS ! idx)
                        else Inl IndexError,
          m'))"

text \<open>
  A run of lookups: successive calls of \<^verbatim>\<open>_get_calendar_color\<close> on one generator, each on
  the map the previous one left.
\<close>

fun color_lookups :: "color_map \<Rightarrow> string list \<Rightarrow> (exn + color \<times> color) list" where
  "color_lookups m [] = []"
| "color_lookups m (n # ns) =
     (case get_calendar_color m n of (r, m') \<Rightarrow> r # color_lookups m' ns)"

text \<open>The distinct names of a run, in the order of their first lookup.\<close>

fun first_seen :: "string list \<Rightarrow> string list \<Rightarrow> string list" where
  "first_seen seen [] = seen"
| "first_seen seen (n # ns) = first_seen (if n \<in> set seen then seen else seen @ [n]) ns"

section \<open>Page layout (pdf\_generator.py)\<close>

text \<open>
  Lengths are points. ReportLab has \<^verbatim>\<open>inch = 72.0\<close> and \<^verbatim>\<open>mm = inch / 25.4\<close>; the floats of
  the source are idealised as rationals here, so rounding is not modelled.
\<close>

definition mm :: rat where
  "mm = 360 / 127"

text \<open>Hour and minute of a time of day.\<close>

definition hour_of :: "time \<Rightarrow> int" where
  "hour_of t = t div 3600000000"

definition minute_of :: "time \<Rightarrow> int" where
  "minute_of t = (t div 60000000) mod 60"

text \<open>
  What the schedule column puts on the canvas, one item for the group of canvas calls of
  one loop iteration: a banner with its top \<open>y\<close>, an hour row with its hour and \<open>slot_y\<close>,
  a timed event with its \<open>top\<close> and \<open>bottom\<close>.
\<close>

datatype sched_draw =
    AllDayBanner CalendarEvent "color \<times> color" rat
  | HourRow int rat
  | TimedEvent CalendarEvent "color \<times> color" rat rat

fun draw_all_day_events ::
  "color_map \<Rightarrow> CalendarEvent list \<Rightarrow> rat \<Rightarrow> (exn + rat) \<times> sched_draw list \<times> color_map" where
  "draw_all_day_events m [] y = (Inr y, [], m)"
| "draw_all_day_events m (event # rest) y =
     (case get_calendar_color m (calendar_name event) of
        (Inl e, m') \<Rightarrow> (Inl e, [], m')
      | (Inr c, m') \<Rightarrow>
          (case draw_all_day_events m' rest (y - (5 * mm + 1 * mm)) of
             (r, ds, m'') \<Rightarrow> (r, AllDayBanner event c y # ds, m'')))"

text \<open>
  \<^verbatim>\<open>_draw_timed_event\<close>. A \<^verbatim>\<open>time\<close> is always truthy, so \<^verbatim>\<open>if event.end_time\<close> asks whether
  the end is set.
\<close>

definition draw_timed_event ::
  "int \<Rightarrow> int \<Rightarrow> color_map \<Rightarrow> CalendarEvent \<Rightarrow> rat \<Rightarrow> rat
     \<Rightarrow> exn option \<times> sched_draw list \<times> color_map" where
  "draw_timed_event start_cfg end_cfg m event schedule_top_y slot_height =
     (case start_time event of
        None \<Rightarrow> (None, [], m)
      | Some st \<Rightarrow>
          (let start_hour0 = of_int (hour_of st) + of_int (minute_of st) / 60;
               end_hour0 = (case end_time event of
                              None \<Rightarrow> start_hour0 + 1
                            | Some et \<Rightarrow> of_int (hour_of et) + of_int (minute_of et) / 60);
               start_hour = max start_hour0 (of_int start_cfg);
               end_hour = min end_hour0 (of_int end_cfg)
           in if start_hour \<ge> end_hour then (None, [], m)
              else
                (let top = schedule_top_y - (start_hour - of_int start_cfg) * slot_height;
                     bottom = schedule_top_y - (end_hour - of_int start_cfg) * slot_height
                 in case get_calendar_color m (calendar_name event) of
                      (Inl e, m') \<Rightarrow> (Some e, [], m')
                    | (Inr c, m') \<Rightarrow> (None, [TimedEvent event c top bottom], m'))))"

fun draw_timed_events ::
  "int \<Rightarrow> int \<Rightarrow> color_map \<Rightarrow> CalendarEvent list \<Rightarrow> rat \<Rightarrow> rat
     \<Rightarrow> exn option \<times> sched_draw list \<times> color_map" where
  "draw_timed_events start_cfg end_cfg m [] y slot_height = (None, [], m)"
| "draw_timed_events start_cfg end_cfg m (event # rest) y slot_height =
     (case draw_timed_event start_cfg end_cfg m event y slot_height of
        (Some e, ds, m') \<Rightarrow> (Some e, ds, m')
      | (None, ds, m') \<Rightarrow>
          (case draw_timed_events start_cfg end_cfg m' rest y slot_height of
             (r, ds', m'') \<Rightarrow> (r, ds @ ds', m'')))"

text \<open>
  \<^verbatim>\<open>_draw_schedule\<close>: the result is the returned \<open>y\<close> or the exception, with what was drawn
  until then and the generator as the calls left it. \<^verbatim>\<open>range(num_hours)\<close> is empty for a
  negative \<^verbatim>\<open>num_hours\<close>; the division raises \<^verbatim>\<open>ZeroDivisionError\<close> for \<^verbatim>\<open>num_hours = 0\<close>.
\<close>

definition draw_schedule ::
  "PlannerPDFGenerator \<Rightarrow> PlannerData \<Rightarrow> rat \<Rightarrow> rat
     \<Rightarrow> (exn + rat) \<times> sched_draw list \<times> PlannerPDFGenerator" where
  "draw_schedule gen data top_y bottom_limit =
     (let all_day_events = filter all_day (events data);
          timed_events = filter (\<lambda>e. \<not> all_day e) (events data);
          y0 = top_y - 5 * mm;
          (r1, banners, m1) =
             (if all_day_events \<noteq> []
              then (case draw_all_day_events (calendar_color_map gen) all_day_events y0 of
                      (Inl e, ds, m') \<Rightarrow> (Inl e, ds, m')
                    | (Inr y', ds, m') \<Rightarrow> (Inr (y' - 3 * mm), ds, m'))
              else (Inr y0, [], calendar_color_map gen))
      in case r1 of
           Inl e \<Rightarrow> (Inl e, banners, gen\<lparr>calendar_color_map := m1\<rparr>)
         | Inr y \<Rightarrow>
             (let num_hours = day_end_hour gen - day_start_hour gen;
                  available_height = y - bottom_limit
              in if num_hours = 0
                 then (Inl ZeroDivisionError, banners, gen\<lparr>calendar_color_map := m1\<rparr>)
                 else
                   (let slot_height = min (available_height / of_int num_hours) (12 * mm);
                        rows = map (\<lambda>hour_idx. HourRow (day_start_hour gen + int hour_idx)
                                                 (y - of_nat hour_idx * slot_height))
                                   [0 ..< nat num_hours]
                    in case draw_timed_events (day_start_hour gen) (day_end_hour gen) m1
                              timed_events y slot_height of
                         (Some e, ds, m2) \<Rightarrow>
                            (Inl e, banners @ rows @ ds, gen\<lparr>calendar_color_map := m2\<rparr>)
                       | (None, ds, m2) \<Rightarrow>
                            (Inr (y - of_int num_hours * slot_height), banners @ rows @ ds,
                             gen\<lparr>calendar_color_map := m2\<rparr>))))"

text \<open>The height of an hour row, as \<^verbatim>\<open>_draw_schedule\<close> computes it when it gets that far.\<close>

definition slot_height_of :: "int \<Rightarrow> int \<Rightarrow> rat \<Rightarrow> rat \<Rightarrow> rat" where
  "slot_height_of start_cfg end_cfg y bottom_limit =
     min ((y - bottom_limit) / of_int (end_cfg - start_cfg)) (12 * mm)"

subsection \<open>Todos column\<close>


















section \<open>Sample inputs\<close>

text \<open>Concrete values on which the theorems below are evaluated.\<close>

definition mk_todo :: "string \<Rightarrow> string \<Rightarrow> date option \<Rightarrow> TodoItem" where
  "mk_todo descr ctx due =
     \<lparr>description = descr, context = ctx, project = [], due_date = due, notes = [], priority = 0\<rparr>"

definition sample_py :: pylib where
  "sample_py =
     \<lparr>py_int = (\<lambda>s. if s = ''1'' then Some 1 else if s = ''2'' then Some 2 else None),
      fromisoformat = (\<lambda>s. if s = ''2026-02-15'' then Some 739662 else None)\<rparr>"

definition sample_el :: "string \<Rightarrow> string \<Rightarrow> todo_el" where
  "sample_el descr due =
     \<lparr>el_description = descr, el_context_id = ''1'', el_project_id = [], el_due = due,
      el_notes = []\<rparr>"

definition sample_names :: "string list" where
  "sample_names = [''Work'', ''Home'', ''Work'', ''a'', ''b'', ''c'', ''d'']"


definition empty_day :: PlannerData where
  "empty_day = \<lparr>target_date = 10, events = [], todos = []\<rparr>"

definition holiday :: CalendarEvent where
  "holiday = \<lparr>title = ''Public Holiday'', start_time = None, end_time = None, all_day = True,
               location = None, event_description = None, calendar_name = ''Work''\<rparr>"

text \<open>
  Zones with fixed offsets, zone \<open>n\<close> being \<open>n\<close> hours ahead of UTC; a recurrence parser that
  knows one rule, five daily occurrences from the start, and rejects every other text.
\<close>

definition sample_zones :: zones where
  "sample_zones = \<lparr>utcoffset = (\<lambda>t w. int t * 3600000000),
                   fromutc = (\<lambda>t u. u + int t * 3600000000)\<rparr>"

definition sample_rrulestr :: "string \<Rightarrow> int \<Rightarrow> exn + rrule" where
  "sample_rrulestr text w =
     (if text = ''FREQ=DAILY;COUNT=5''
      then Inr (map (\<lambda>k. Inr (w + int k * usec_per_day)) [0 ..< 5])
      else Inl ValueError)"

definition sample_component :: "dtval \<Rightarrow> dtval option \<Rightarrow> rrule_prop option \<Rightarrow> component" where
  "sample_component s e r =
     \<lparr>comp_name = ''VEVENT'', SUMMARY = Some ''Standup'', DTSTART = Some s, DTEND = e,
      LOCATION = None, DESCRIPTION = None, RRULE = r\<rparr>"

definition stamp :: "date \<Rightarrow> int \<Rightarrow> tz option \<Rightarrow> datetime" where
  "stamp d h t = \<lparr>wall = d * usec_per_day + h * 3600000000, tzinfo = t\<rparr>"



section \<open>Notions used in the statements and proofs\<close>

text \<open>The items of the schedule column that are all-day banners.\<close>

fun is_banner :: "sched_draw \<Rightarrow> bool" where
  "is_banner (AllDayBanner ev c y) = True"
| "is_banner (HourRow h y) = False"
| "is_banner (TimedEvent ev c y1 y2) = False"

text \<open>
  The colour map after the names \<open>D\<close> have been seen in this order: the \<open>j\<close>-th name (from
  0) has the index \<open>j\<close> modulo the size of the palette.
\<close>

definition map_for :: "string list \<Rightarrow> color_map" where
  "map_for D = zip D (map (\<lambda>j. j mod length CALENDAR_COLORS) [0 ..< length D])"


section \<open>Properties of the todo filter\<close>

lemma mset_insort_desc: "mset (insort_desc k x xs) = add_mset x (mset xs)"
  by (induction xs) auto

lemma mset_sort_reverse: "mset (sort_reverse k xs) = mset xs"
  by (induction xs) (auto simp: sort_reverse_def mset_insort_desc)

lemma set_insort_desc: "set (insort_desc k x xs) = insert x (set xs)"
  by (induction xs) auto

lemma sorted_insort_desc:
  "sorted_wrt (\<lambda>a b. k b \<le> k a) xs \<Longrightarrow> sorted_wrt (\<lambda>a b. k b \<le> k a) (insort_desc k x xs)"
  by (induction xs) (auto simp: set_insort_desc)

lemma sorted_sort_reverse: "sorted_wrt (\<lambda>a b. k b \<le> k a) (sort_reverse k xs)"
  by (induction xs) (auto simp: sort_reverse_def sorted_insort_desc)

lemma filter_insort_desc_neq:
  "k x \<noteq> d \<Longrightarrow> filter (\<lambda>t. k t = d) (insort_desc k x xs) = filter (\<lambda>t. k t = d) xs"
  by (induction xs) auto

lemma filter_insort_desc_eq:
  "sorted_wrt (\<lambda>a b. k b \<le> k a) xs \<Longrightarrow>
   filter (\<lambda>t. k t = k x) (insort_desc k x xs) = x # filter (\<lambda>t. k t = k x) xs"
proof (induction xs)
  case Nil
  then show ?case by simp
next
  case (Cons y ys)
  show ?case
  proof (cases "k y \<le> k x")
    case True
    then show ?thesis by simp
  next
    case False
    then have "k y \<noteq> k x" by auto
    with False Cons show ?thesis by simp
  qed
qed

lemma stable_sort_reverse:
  "filter (\<lambda>t. k t = d) (sort_reverse k xs) = filter (\<lambda>t. k t = d) xs"
proof (induction xs)
  case Nil
  then show ?case by (simp add: sort_reverse_def)
next
  case (Cons x xs)
  have s: "sorted_wrt (\<lambda>a b. k b \<le> k a) (foldr (insort_desc k) xs [])"
    using sorted_sort_reverse [of k xs] by (simp add: sort_reverse_def)
  show ?case
  proof (cases "k x = d")
    case True
    with Cons filter_insort_desc_eq [OF s, of x] show ?thesis
      by (simp add: sort_reverse_def)
  next
    case False
    with Cons filter_insort_desc_neq [of k x d] show ?thesis
      by (simp add: sort_reverse_def)
  qed
qed

lemma set_sort_reverse: "set (sort_reverse k xs) = set xs"
  using mset_sort_reverse [of k xs] by (metis set_mset_mset)

lemma is_relevant_iff: "is_relevant target t \<longleftrightarrow> (\<exists>d. due_date t = Some d \<and> d \<le> target)"
  by (auto simp: is_relevant_def split: option.splits)

lemma relevant_due_Some:
  "t \<in> set (relevant_todos ts target) \<Longrightarrow> \<exists>d. due_date t = Some d \<and> d \<le> target"
  by (auto simp: relevant_todos_def set_sort_reverse is_relevant_iff)

lemma sorted_relevant_todos:
  "sorted_wrt (\<lambda>a b. due_date b \<le> due_date a) (relevant_todos ts target)"
  by (simp add: relevant_todos_def sorted_sort_reverse)

text \<open>
  C4. For every list of todos and every target date, the list the filter hands on holds
  exactly the input todos whose due date is set and not after the target date, each as
  often as in the input (so a todo with no due date is never in it); every todo in it has
  its due date set, and along the list the due dates never increase; and the todos due
  on one date \<open>d\<close> stand in the order they had in the input.
\<close>

theorem todo_filter_select:
  "mset (relevant_todos ts target) =
     filter_mset (\<lambda>t. \<exists>d. due_date t = Some d \<and> d \<le> target) (mset ts)
   \<and> sorted_wrt (\<lambda>a b. \<exists>da db. due_date a = Some da \<and> due_date b = Some db \<and> db \<le> da)
        (relevant_todos ts target)
   \<and> filter (\<lambda>t. due_date t = Some d) (relevant_todos ts target) =
       (if d \<le> target then filter (\<lambda>t. due_date t = Some d) ts else [])"
proof (intro conjI)
  show "mset (relevant_todos ts target) =
     filter_mset (\<lambda>t. \<exists>d. due_date t = Some d \<and> d \<le> target) (mset ts)"
    by (simp add: relevant_todos_def mset_sort_reverse is_relevant_iff [abs_def])
next
  show "sorted_wrt (\<lambda>a b. \<exists>da db. due_date a = Some da \<and> due_date b = Some db \<and> db \<le> da)
        (relevant_todos ts target)"
  proof (rule sorted_wrt_mono_rel [OF _ sorted_relevant_todos])
    fix a b
    assume a: "a \<in> set (relevant_todos ts target)" and b: "b \<in> set (relevant_todos ts target)"
      and le: "due_date b \<le> due_date a"
    from relevant_due_Some [OF a] obtain da where da: "due_date a = Some da" by blast
    from relevant_due_Some [OF b] obtain db where db: "due_date b = Some db" by blast
    from le da db show "\<exists>da db. due_date a = Some da \<and> due_date b = Some db \<and> db \<le> da"
      by simp
  qed
next
  have "filter (\<lambda>t. due_date t = Some d) (relevant_todos ts target) =
        filter (\<lambda>t. due_date t = Some d) (filter (is_relevant target) ts)"
    by (simp add: relevant_todos_def stable_sort_reverse)
  also have "\<dots> = (if d \<le> target then filter (\<lambda>t. due_date t = Some d) ts else [])"
    by (induction ts) (auto simp: is_relevant_def)
  finally show "filter (\<lambda>t. due_date t = Some d) (relevant_todos ts target) =
       (if d \<le> target then filter (\<lambda>t. due_date t = Some d) ts else [])" .
qed

theorem todo_filter_select_witness:
  "filter (\<lambda>t. due_date t = Some 1)
     (relevant_todos [mk_todo ''a'' [] (Some 1), mk_todo ''b'' [] None, mk_todo ''c'' [] (Some 3),
                      mk_todo ''d'' [] (Some 1), mk_todo ''e'' [] (Some 9)] 5) =
   [mk_todo ''a'' [] (Some 1), mk_todo ''d'' [] (Some 1)]"
  using todo_filter_select
          [of "[mk_todo ''a'' [] (Some 1), mk_todo ''b'' [] None, mk_todo ''c'' [] (Some 3),
                mk_todo ''d'' [] (Some 1), mk_todo ''e'' [] (Some 9)]" 5 1]
  by (simp add: mk_todo_def)

text \<open>
  C5, as the spec states it (most overdue first), fails: of two todos due on day 1 and on
  day 2, both overdue on day 3, the one due on day 2 comes first.
\<close>

theorem todo_most_overdue_first_counterexample:
  "relevant_todos [mk_todo ''older'' [] (Some 1), mk_todo ''newer'' [] (Some 2)] 3 =
     [mk_todo ''newer'' [] (Some 2), mk_todo ''older'' [] (Some 1)]"
  by (simp add: relevant_todos_def sort_reverse_def is_relevant_def mk_todo_def)

text \<open>
  C5, amended. The filter orders the selected todos most overdue last: for every input, a
  returned todo with a larger due date stands before every returned todo with a smaller
  due date.
\<close>

theorem todo_most_overdue_last:
  assumes "i < length (relevant_todos ts target)" and "j < length (relevant_todos ts target)"
    and "due_date (relevant_todos ts target ! j) < due_date (relevant_todos ts target ! i)"
  shows "i < j"
proof (rule ccontr)
  assume "\<not> i < j"
  then have "j \<le> i" by simp
  show False
  proof (cases "j = i")
    case True
    with assms show False by simp
  next
    case False
    with \<open>j \<le> i\<close> have "j < i" by simp
    from sorted_wrt_nth_less [OF sorted_relevant_todos this assms(1)] assms(3)
    show False by simp
  qed
qed

theorem todo_most_overdue_last_witness:
  "relevant_todos [mk_todo ''older'' [] (Some 1), mk_todo ''newer'' [] (Some 2)] 3 ! 0 =
     mk_todo ''newer'' [] (Some 2) \<and> (0::nat) < 1"
proof -
  have out: "relevant_todos [mk_todo ''older'' [] (Some 1), mk_todo ''newer'' [] (Some 2)] 3 =
     [mk_todo ''newer'' [] (Some 2), mk_todo ''older'' [] (Some 1)]"
    by (simp add: relevant_todos_def sort_reverse_def is_relevant_def mk_todo_def)
  have "(0::nat) < 1"
    by (rule todo_most_overdue_last
          [of 0 "[mk_todo ''older'' [] (Some 1), mk_todo ''newer'' [] (Some 2)]" 3 1])
       (simp_all add: out, simp add: mk_todo_def)
  with out show ?thesis by simp
qed

section \<open>Malformed due dates\<close>

lemma not_relevant_None: "due_date t = None \<Longrightarrow> t \<notin> set (relevant_todos ts target)"
  using relevant_due_Some [of t ts target] by auto

text \<open>
  C10. For every raw todo record whose due string is present and whose date part
  \<^verbatim>\<open>date.fromisoformat\<close> rejects: the due-date block leaves the due date absent and logs a
  warning instead of raising; the record's iteration ends as it would with no due string
  at all, but for the warning, so the due date aborts nothing; and when the iteration
  appends a todo, that todo has no due date, the warning is in what the iteration logged,
  the deadline filter never returns the todo, and the loop goes on with the next record.
\<close>

theorem malformed_due_date:
  assumes "el_due el \<noteq> []" and "fromisoformat py (split_T_head (el_due el)) = None"
  shows "parse_due py (el_due el) = (None, [(WARNING, ''Could not parse due date: %r'')])
     \<and> parse_todo_el py cs ps el =
         (case parse_todo_el py cs ps (el\<lparr>el_due := []\<rparr>) of
            (Inr (Some t), l) \<Rightarrow> (Inr (Some t), l @ [(WARNING, ''Could not parse due date: %r'')])
          | r \<Rightarrow> r)
     \<and> (\<forall>t l. parse_todo_el py cs ps el = (Inr (Some t), l) \<longrightarrow>
           due_date t = None
         \<and> (WARNING, ''Could not parse due date: %r'') \<in> set l
         \<and> t \<notin> set (relevant_todos ts target)
         \<and> fetch_todos_loop py cs ps (el # els) acc lg =
             fetch_todos_loop py cs ps els (acc @ [t]) (lg @ l))"
proof (intro conjI allI impI)
  show d: "parse_due py (el_due el) = (None, [(WARNING, ''Could not parse due date: %r'')])"
    using assms by (simp add: parse_due_def)
  show "parse_todo_el py cs ps el =
         (case parse_todo_el py cs ps (el\<lparr>el_due := []\<rparr>) of
            (Inr (Some t), l) \<Rightarrow> (Inr (Some t), l @ [(WARNING, ''Could not parse due date: %r'')])
          | r \<Rightarrow> r)"
    using d by (simp add: parse_todo_el_def parse_due_def Let_def split: sum.splits)
  fix t l
  assume p: "parse_todo_el py cs ps el = (Inr (Some t), l)"
  from p d show n: "due_date t = None"
    by (auto simp: parse_todo_el_def Let_def split: sum.splits if_splits)
  from p d show "(WARNING, ''Could not parse due date: %r'') \<in> set l"
    by (auto simp: parse_todo_el_def Let_def split: sum.splits if_splits)
  from n show "t \<notin> set (relevant_todos ts target)" by (rule not_relevant_None)
  from p show "fetch_todos_loop py cs ps (el # els) acc lg =
             fetch_todos_loop py cs ps els (acc @ [t]) (lg @ l)"
    by simp
qed

theorem malformed_due_date_witness:
  "el_due (sample_el ''Pay rent'' ''tomorrow'') \<noteq> []
   \<and> fromisoformat sample_py (split_T_head (el_due (sample_el ''Pay rent'' ''tomorrow''))) = None
   \<and> parse_todo_el sample_py (Map.empty(1 \<mapsto> ''home'')) Map.empty
        (sample_el ''Pay rent'' ''tomorrow'') =
       (Inr (Some (mk_todo ''Pay rent'' ''home'' None)),
        [(WARNING, ''Could not parse due date: %r'')])
   \<and> fetch_todos_loop sample_py (Map.empty(1 \<mapsto> ''home'')) Map.empty
        [sample_el ''Pay rent'' ''tomorrow'', sample_el ''Call'' ''2026-02-15T00:00:00+02:00'']
        [] [] =
       (Inr [mk_todo ''Pay rent'' ''home'' None, mk_todo ''Call'' ''home'' (Some 739662)],
        [(WARNING, ''Could not parse due date: %r'')])"
proof -
  have h1: "el_due (sample_el ''Pay rent'' ''tomorrow'') \<noteq> []"
    by (simp add: sample_el_def)
  have h2: "fromisoformat sample_py (split_T_head (el_due (sample_el ''Pay rent'' ''tomorrow''))) = None"
    by (simp add: sample_el_def sample_py_def split_T_head_def)
  have p: "parse_todo_el sample_py (Map.empty(1 \<mapsto> ''home'')) Map.empty
        (sample_el ''Pay rent'' ''tomorrow'') =
       (Inr (Some (mk_todo ''Pay rent'' ''home'' None)),
        [(WARNING, ''Could not parse due date: %r'')])"
    by (simp add: parse_todo_el_def parse_due_def resolve_name_def sample_el_def sample_py_def
          split_T_head_def strip_def isspace_def mk_todo_def)
  have q: "fetch_todos_loop sample_py (Map.empty(1 \<mapsto> ''home'')) Map.empty
        [sample_el ''Call'' ''2026-02-15T00:00:00+02:00'']
        [mk_todo ''Pay rent'' ''home'' None] [(WARNING, ''Could not parse due date: %r'')] =
       (Inr [mk_todo ''Pay rent'' ''home'' None, mk_todo ''Call'' ''home'' (Some 739662)],
        [(WARNING, ''Could not parse due date: %r'')])"
    by (simp add: parse_todo_el_def parse_due_def resolve_name_def sample_el_def sample_py_def
          split_T_head_def strip_def isspace_def mk_todo_def)
  have "\<forall>t l. parse_todo_el sample_py (Map.empty(1 \<mapsto> ''home'')) Map.empty
                  (sample_el ''Pay rent'' ''tomorrow'') = (Inr (Some t), l) \<longrightarrow>
          fetch_todos_loop sample_py (Map.empty(1 \<mapsto> ''home'')) Map.empty
            (sample_el ''Pay rent'' ''tomorrow'' #
             [sample_el ''Call'' ''2026-02-15T00:00:00+02:00'']) [] [] =
          fetch_todos_loop sample_py (Map.empty(1 \<mapsto> ''home'')) Map.empty
            [sample_el ''Call'' ''2026-02-15T00:00:00+02:00''] ([] @ [t]) ([] @ l)"
    using malformed_due_date [OF h1 h2, of "Map.empty(1 \<mapsto> ''home'')" Map.empty "[]" 0
         "[sample_el ''Call'' ''2026-02-15T00:00:00+02:00'']" "[]" "[]"]
    by blast
  with p have "fetch_todos_loop sample_py (Map.empty(1 \<mapsto> ''home'')) Map.empty
            (sample_el ''Pay rent'' ''tomorrow'' #
             [sample_el ''Call'' ''2026-02-15T00:00:00+02:00'']) [] [] =
          fetch_todos_loop sample_py (Map.empty(1 \<mapsto> ''home'')) Map.empty
            [sample_el ''Call'' ''2026-02-15T00:00:00+02:00'']
            ([] @ [mk_todo ''Pay rent'' ''home'' None])
            ([] @ [(WARNING, ''Could not parse due date: %r'')])"
    by blast
  with q have "fetch_todos_loop sample_py (Map.empty(1 \<mapsto> ''home'')) Map.empty
        [sample_el ''Pay rent'' ''tomorrow'', sample_el ''Call'' ''2026-02-15T00:00:00+02:00'']
        [] [] =
       (Inr [mk_todo ''Pay rent'' ''home'' None, mk_todo ''Call'' ''home'' (Some 739662)],
        [(WARNING, ''Could not parse due date: %r'')])"
    by (simp only: append_Nil)
  with h1 h2 p show ?thesis by blast
qed

section \<open>Frame of the fetch stages\<close>

lemma frame_add_event:
  "add_event z t cn c s e (data, lg) = (data', lg', r) \<Longrightarrow>
   todos data' = todos data \<and> target_date data' = target_date data
   \<and> (\<exists>new. events data' = events data @ new)"
  by (auto simp: add_event_def split: sum.splits)

lemma frame_parse_component:
  "parse_component z rs t cn target c (data, lg) = (data', lg', r) \<Longrightarrow>
   todos data' = todos data \<and> target_date data' = target_date data
   \<and> (\<exists>new. events data' = events data @ new)"
  by (auto simp: parse_component_def Let_def dest!: frame_add_event
           split: if_splits option.splits prod.splits recurrence.splits sum.splits)

lemma frame_parse_event:
  "parse_event z rs t cn target comps (data, lg) = (data', lg', r) \<Longrightarrow>
   todos data' = todos data \<and> target_date data' = target_date data
   \<and> (\<exists>new. events data' = events data @ new)"
proof (induction comps arbitrary: data lg)
  case Nil
  then show ?case by simp
next
  case (Cons c comps)
  obtain d1 l1 r1 where s: "parse_component z rs t cn target c (data, lg) = (d1, l1, r1)"
    by (cases "parse_component z rs t cn target c (data, lg)") auto
  show ?case
  proof (cases r1)
    case None
    with Cons.prems s have "parse_event z rs t cn target comps (d1, l1) = (data', lg', r)"
      by simp
    from Cons.IH [OF this] frame_parse_component [OF s] show ?thesis by auto
  next
    case (Some e)
    with Cons.prems s have "data' = d1" by simp
    with frame_parse_component [OF s] show ?thesis by simp
  qed
qed

lemma frame_fetch:
  "fetch py cs ps resp target data lg = (r, data', lg') \<Longrightarrow>
   events data' = events data \<and> target_date data' = target_date data
   \<and> (\<exists>new. todos data' = todos data @ new)"
  by (auto simp: fetch_def split: prod.splits sum.splits)

text \<open>
  C9. Each fetch stage changes only its own sequence of the aggregate. Whatever the
  todo fetch does (also when it raises), the events and the target date are as before
  and the old todos are a prefix of the new ones; whatever the parsing of one calendar
  object does, the todos and the target date are as before and the old events are a
  prefix of the new ones. So nothing already in the aggregate is removed or moved.
\<close>

theorem fetch_stages_frame:
  "events (fst (snd (fetch py cs ps resp target data lg))) = events data
   \<and> target_date (fst (snd (fetch py cs ps resp target data lg))) = target_date data
   \<and> prefix (todos data) (todos (fst (snd (fetch py cs ps resp target data lg))))
   \<and> todos (fst (parse_event z rs t cn target' comps (data, lg))) = todos data
   \<and> target_date (fst (parse_event z rs t cn target' comps (data, lg))) = target_date data
   \<and> prefix (events data) (events (fst (parse_event z rs t cn target' comps (data, lg))))"
proof -
  obtain r d1 l1 where f: "fetch py cs ps resp target data lg = (r, d1, l1)"
    by (cases "fetch py cs ps resp target data lg") auto
  obtain d2 l2 r2 where p: "parse_event z rs t cn target' comps (data, lg) = (d2, l2, r2)"
    by (cases "parse_event z rs t cn target' comps (data, lg)") auto
  from frame_fetch [OF f] frame_parse_event [OF p] f p show ?thesis
    by (auto simp: prefix_def)
qed

section \<open>Calendar colours\<close>

lemma length_CALENDAR_COLORS: "length CALENDAR_COLORS = 5"
  by (simp add: CALENDAR_COLORS_def)

lemma map_for_keys: "map fst (map_for D) = D"
  by (simp add: map_for_def)

lemma length_map_for: "length (map_for D) = length D"
  by (simp add: map_for_def)

lemma map_for_snoc:
  "map_for (D @ [n]) = map_for D @ [(n, length D mod length CALENDAR_COLORS)]"
  by (simp add: map_for_def)

lemma map_of_map_for:
  "distinct D \<Longrightarrow> i < length D \<Longrightarrow> map_of (map_for D) (D ! i) = Some (i mod length CALENDAR_COLORS)"
  unfolding map_for_def
  by (subst map_of_zip_nth) auto

lemma get_color_seen:
  assumes "distinct D" and "i < length D"
  shows "get_calendar_color (map_for D) (D ! i) =
           (Inr (CALENDAR_COLORS ! (i mod length CALENDAR_COLORS)), map_for D)"
  using assms map_of_map_for [OF assms]
  by (simp add: get_calendar_color_def map_for_keys length_CALENDAR_COLORS)

lemma get_color_new:
  assumes "distinct D" and "n \<notin> set D"
  shows "get_calendar_color (map_for D) n =
           (Inr (CALENDAR_COLORS ! (length D mod length CALENDAR_COLORS)), map_for (D @ [n]))"
proof -
  have d: "distinct (D @ [n])" using assms by simp
  have "map_of (map_for (D @ [n])) ((D @ [n]) ! length D) = Some (length D mod length CALENDAR_COLORS)"
    by (rule map_of_map_for [OF d]) simp
  then have "map_of (map_for D @ [(n, length D mod length CALENDAR_COLORS)]) n =
      Some (length D mod length CALENDAR_COLORS)"
    by (simp add: map_for_snoc)
  with assms show ?thesis
    by (simp add: get_calendar_color_def map_for_keys length_map_for map_for_snoc
          length_CALENDAR_COLORS)
qed

lemma first_seen_prefix: "prefix D (first_seen D ns)"
proof (induction ns arbitrary: D)
  case Nil
  then show ?case by simp
next
  case (Cons n ns)
  have "prefix D (if n \<in> set D then D else D @ [n])" by simp
  also have "prefix \<dots> (first_seen (if n \<in> set D then D else D @ [n]) ns)"
    by (rule Cons.IH)
  finally show ?case by simp
qed

lemma distinct_first_seen: "distinct D \<Longrightarrow> distinct (first_seen D ns)"
  by (induction ns arbitrary: D) auto

lemma set_first_seen: "set (first_seen D ns) = set D \<union> set ns"
  by (induction ns arbitrary: D) auto

lemma color_lookups_nth:
  assumes "distinct D" and "k < length ns" and "i < length (first_seen D ns)"
    and "first_seen D ns ! i = ns ! k"
  shows "color_lookups (map_for D) ns ! k = Inr (CALENDAR_COLORS ! (i mod length CALENDAR_COLORS))"
  using assms
proof (induction ns arbitrary: D k)
  case Nil
  then show ?case by simp
next
  case (Cons n ns)
  define D' where "D' = (if n \<in> set D then D else D @ [n])"
  have dD': "distinct D'" using Cons.prems(1) by (simp add: D'_def)
  have fs: "first_seen D (n # ns) = first_seen D' ns" by (simp add: D'_def)
  have step: "\<exists>r. get_calendar_color (map_for D) n = (r, map_for D')"
  proof (cases "n \<in> set D")
    case True
    then obtain j where "j < length D" "D ! j = n" by (auto simp: in_set_conv_nth)
    with get_color_seen [OF Cons.prems(1), of j] True show ?thesis by (auto simp: D'_def)
  next
    case False
    with get_color_new [OF Cons.prems(1) False] show ?thesis by (auto simp: D'_def)
  qed
  show ?case
  proof (cases k)
    case 0
    have nD': "n \<in> set D'" by (simp add: D'_def)
    then obtain j where j: "j < length D'" "D' ! j = n" by (auto simp: in_set_conv_nth)
    from first_seen_prefix [of D' ns] obtain zs where zs: "first_seen D' ns = D' @ zs"
      by (auto simp: prefix_def)
    with j have "first_seen D' ns ! j = n" and jl: "j < length (first_seen D' ns)"
      by (simp_all add: nth_append)
    moreover have "first_seen D' ns ! i = n" using Cons.prems(4) 0 fs by simp
    moreover have "distinct (first_seen D' ns)" by (rule distinct_first_seen [OF dD'])
    ultimately have ij: "i = j" using Cons.prems(3) fs
      by (metis nth_eq_iff_index_eq)
    have "fst (get_calendar_color (map_for D) n) = Inr (CALENDAR_COLORS ! (j mod length CALENDAR_COLORS))"
    proof (cases "n \<in> set D")
      case True
      with j have "j < length D" "D ! j = n" by (simp_all add: D'_def)
      with get_color_seen [OF Cons.prems(1), of j] show ?thesis by simp
    next
      case False
      with j Cons.prems(1) have "j = length D"
        by (auto simp: D'_def nth_append split: if_splits dest: nth_mem)
      with get_color_new [OF Cons.prems(1) False] show ?thesis by simp
    qed
    with 0 ij show ?thesis by (cases "get_calendar_color (map_for D) n") simp
  next
    case (Suc k')
    from step obtain r where r: "get_calendar_color (map_for D) n = (r, map_for D')" by blast
    have "color_lookups (map_for D') ns ! k' = Inr (CALENDAR_COLORS ! (i mod length CALENDAR_COLORS))"
      using Cons.prems Suc fs by (intro Cons.IH [OF dD']) simp_all
    with r Suc show ?thesis by simp
  qed
qed

lemma map_for_Nil: "map_for [] = []" by (simp add: map_for_def)


text \<open>
  C7. In a run of lookups on a generator whose colour map starts empty, with a palette of
  5 pairs: every name looked up is one of the distinct names of the run; a lookup of the
  name that is the \<open>n\<close>-th distinct one counted from 0 (the \<open>(n+1)\<close>-th in the spec's counting)
  returns the pair at index \<open>n mod 5\<close>, so the first distinct name gets index 0; every
  lookup of a name returns what any other lookup of that name returns; and the sixth
  distinct name gets the pair of the first.
\<close>

theorem calendar_color_cycle:
  assumes "k < length ns"
  shows "length CALENDAR_COLORS = 5
     \<and> (\<exists>n < length (first_seen [] ns). first_seen [] ns ! n = ns ! k)
     \<and> (\<forall>n < length (first_seen [] ns). first_seen [] ns ! n = ns ! k \<longrightarrow>
           color_lookups [] ns ! k = Inr (CALENDAR_COLORS ! (n mod 5)))
     \<and> (\<forall>j < length ns. ns ! j = ns ! k \<longrightarrow> color_lookups [] ns ! j = color_lookups [] ns ! k)
     \<and> (\<forall>j < length ns. 5 < length (first_seen [] ns) \<and> first_seen [] ns ! 0 = ns ! k
            \<and> first_seen [] ns ! 5 = ns ! j \<longrightarrow>
           color_lookups [] ns ! j = color_lookups [] ns ! k)"
proof -
  have main: "color_lookups [] ns ! k' = Inr (CALENDAR_COLORS ! (n mod 5))"
    if "k' < length ns" "n < length (first_seen [] ns)" "first_seen [] ns ! n = ns ! k'" for k' n
    using color_lookups_nth [of "[]" k' ns n] that
    by (simp add: map_for_Nil length_CALENDAR_COLORS)
  have ex: "\<exists>n < length (first_seen [] ns). first_seen [] ns ! n = ns ! k'"
    if "k' < length ns" for k'
  proof -
    from that have "ns ! k' \<in> set (first_seen [] ns)" by (simp add: set_first_seen)
    then show ?thesis by (auto simp: in_set_conv_nth)
  qed
  have same: "color_lookups [] ns ! j = color_lookups [] ns ! k"
    if "j < length ns" "ns ! j = ns ! k" for j
  proof -
    from ex [OF assms] obtain n where n: "n < length (first_seen [] ns)" "first_seen [] ns ! n = ns ! k"
      by blast
    from main [OF assms n] main [OF that(1) n(1)] n(2) that(2) show ?thesis by simp
  qed
  have wrap: "color_lookups [] ns ! j = color_lookups [] ns ! k"
    if "j < length ns" "5 < length (first_seen [] ns)" "first_seen [] ns ! 0 = ns ! k"
       "first_seen [] ns ! 5 = ns ! j" for j
  proof -
    have "color_lookups [] ns ! k = Inr (CALENDAR_COLORS ! (0 mod 5))"
      using that by (intro main [OF assms]) auto
    moreover have "color_lookups [] ns ! j = Inr (CALENDAR_COLORS ! (5 mod 5))"
      using that by (intro main) simp_all
    ultimately show ?thesis by simp
  qed
  from main [OF assms] ex [OF assms] same wrap show ?thesis
    by (simp add: length_CALENDAR_COLORS)
qed

theorem calendar_color_cycle_witness:
  "(6::nat) < length sample_names
   \<and> first_seen [] sample_names = [''Work'', ''Home'', ''a'', ''b'', ''c'', ''d'']
   \<and> color_lookups [] sample_names ! 6 = Inr (''#e8f0fe'', ''#4285f4'')
   \<and> color_lookups [] sample_names ! 0 = Inr (''#e8f0fe'', ''#4285f4'')"
proof -
  have h: "(6::nat) < length sample_names" by code_simp
  have fs: "first_seen [] sample_names = [''Work'', ''Home'', ''a'', ''b'', ''c'', ''d'']"
    by code_simp
  have n5: "(5::nat) < length (first_seen [] sample_names)" by code_simp
  have e5: "first_seen [] sample_names ! 5 = sample_names ! 6" by code_simp
  from calendar_color_cycle [OF h] n5 e5
  have "color_lookups [] sample_names ! 6 = Inr (CALENDAR_COLORS ! (5 mod 5))"
    by blast
  moreover have "CALENDAR_COLORS ! (5 mod 5) = (''#e8f0fe'', ''#4285f4'')" by code_simp
  ultimately have c6: "color_lookups [] sample_names ! 6 = Inr (''#e8f0fe'', ''#4285f4'')"
    by simp
  have c0: "color_lookups [] sample_names ! 0 = Inr (''#e8f0fe'', ''#4285f4'')"
    by code_simp
  from h fs c6 c0 show ?thesis by blast
qed

section \<open>Todos column\<close>


















section \<open>Schedule column\<close>

lemma get_color_total:
  assumes "distinct D"
  shows "\<exists>c D'. get_calendar_color (map_for D) n = (Inr c, map_for D') \<and> distinct D'"
proof (cases "n \<in> set D")
  case True
  then obtain j where "j < length D" "D ! j = n" by (auto simp: in_set_conv_nth)
  with get_color_seen [OF assms, of j] assms show ?thesis by blast
next
  case False
  with get_color_new [OF assms False] assms show ?thesis
    by (intro exI [of _ "D @ [n]"] exI) auto
qed

lemma draw_all_day_events_total:
  "distinct D \<Longrightarrow>
   \<exists>y' ds D'. draw_all_day_events (map_for D) evs y = (Inr y', ds, map_for D')
       \<and> distinct D' \<and> length ds = length evs \<and> list_all is_banner ds"
proof (induction evs arbitrary: D y)
  case Nil
  then show ?case by auto
next
  case (Cons ev evs)
  from get_color_total [OF Cons.prems, of "calendar_name ev"] obtain c D1
    where c: "get_calendar_color (map_for D) (calendar_name ev) = (Inr c, map_for D1)"
      and d1: "distinct D1" by blast
  from Cons.IH [OF d1, of "y - (5 * mm + 1 * mm)"] obtain y' ds D'
    where r: "draw_all_day_events (map_for D1) evs (y - (5 * mm + 1 * mm)) = (Inr y', ds, map_for D')"
      and p: "distinct D'" "length ds = length evs" "list_all is_banner ds" by blast
  from c r p show ?case by auto
qed

lemma draw_timed_event_reversed:
  assumes "e < s"
  shows "draw_timed_event s e m ev y sh = (None, [], m)"
proof (cases "start_time ev")
  case None
  then show ?thesis by (simp add: draw_timed_event_def)
next
  case (Some st)
  have "(of_int e :: rat) < of_int s" using assms by simp
  then have "min x (of_int e) \<le> max x' (of_int s)" for x x' :: rat
    by (simp add: min_def max_def)
  with Some show ?thesis by (simp add: draw_timed_event_def Let_def)
qed

lemma draw_timed_events_reversed:
  "e < s \<Longrightarrow> draw_timed_events s e m evs y sh = (None, [], m)"
  by (induction evs) (simp_all add: draw_timed_event_reversed)

text \<open>
  C6, amended. The layout engine does not validate the two hours: the constructor stores
  every pair. With the start hour after the end hour the schedule is drawn without any
  failure, with the all-day banners and no hour row and no timed event. With the two
  hours equal the schedule raises \<^verbatim>\<open>ZeroDivisionError\<close> where it divides by the number of
  hours, after the all-day banners are drawn.
\<close>

theorem schedule_hours_not_validated:
  assumes "end_hour \<le> start_hour"
  shows "(end_hour < start_hour \<longrightarrow>
           (\<exists>y banners g.
              draw_schedule (PlannerPDFGenerator_init start_hour end_hour) data top_y bottom_limit =
                (Inr y, banners, g)
            \<and> list_all is_banner banners
            \<and> length banners = length (filter all_day (events data))))
       \<and> (end_hour = start_hour \<longrightarrow>
           (\<exists>banners g.
              draw_schedule (PlannerPDFGenerator_init start_hour end_hour) data top_y bottom_limit =
                (Inl ZeroDivisionError, banners, g)
            \<and> list_all is_banner banners
            \<and> length banners = length (filter all_day (events data))))"
proof -
  define evs where "evs = filter all_day (events data)"
  have "distinct ([] :: string list)" by simp
  from draw_all_day_events_total [OF this, of evs "top_y - 5 * mm"] obtain y' ds D'
    where r: "draw_all_day_events [] evs (top_y - 5 * mm) = (Inr y', ds, map_for D')"
      and p: "length ds = length evs" "list_all is_banner ds"
    by (auto simp: map_for_Nil)
  show ?thesis
  proof (cases "evs = []")
    case True
    then show ?thesis using assms
      by (auto simp: draw_schedule_def PlannerPDFGenerator_init_def Let_def evs_def [symmetric]
            draw_timed_events_reversed)
  next
    case False
    then show ?thesis using assms r p
      by (auto simp: draw_schedule_def PlannerPDFGenerator_init_def Let_def evs_def [symmetric]
            draw_timed_events_reversed)
  qed
qed

theorem schedule_hours_not_validated_witness:
  "(8::int) \<le> 8
   \<and> fst (draw_schedule (PlannerPDFGenerator_init 8 8) (empty_day\<lparr>events := [holiday]\<rparr>) 600 100) =
       Inl ZeroDivisionError
   \<and> fst (snd (draw_schedule (PlannerPDFGenerator_init 8 8) (empty_day\<lparr>events := [holiday]\<rparr>)
                 600 100)) =
       [AllDayBanner holiday (''#e8f0fe'', ''#4285f4'') (600 - 5 * mm)]"
proof -
  have h: "(8::int) \<le> 8" by simp
  from schedule_hours_not_validated [OF h, of "empty_day\<lparr>events := [holiday]\<rparr>" 600 100]
  have "fst (draw_schedule (PlannerPDFGenerator_init 8 8) (empty_day\<lparr>events := [holiday]\<rparr>)
               600 100) = Inl ZeroDivisionError"
    by auto
  moreover have "fst (snd (draw_schedule (PlannerPDFGenerator_init 8 8)
                             (empty_day\<lparr>events := [holiday]\<rparr>) 600 100)) =
       [AllDayBanner holiday (''#e8f0fe'', ''#4285f4'') (600 - 5 * mm)]"
    by code_simp
  ultimately show ?thesis by simp
qed

text \<open>
  C6, as the spec states it, fails: with the day starting at 21 and ending at 7 the
  constructor gives a generator and the schedule is drawn with no failure, with no hour
  row, down to the bottom limit, the height of an hour row being negative.
\<close>

theorem schedule_reversed_hours_counterexample:
  "draw_schedule (PlannerPDFGenerator_init 21 7) empty_day 600 100 =
     (Inr 100, [], PlannerPDFGenerator_init 21 7)
   \<and> slot_height_of 21 7 (600 - 5 * mm) 100 < 0"
  by code_simp

section \<open>Calendar events\<close>

lemma add_days_next: "valid_date target \<Longrightarrow> target \<noteq> date_max \<Longrightarrow> add_days target 1 = Inr (target + 1)"
  by (simp add: add_days_def valid_date_def)

lemma add_days_last: "add_days date_max 1 = Inl OverflowError"
  by (simp add: add_days_def valid_date_def)

lemma check_date_spec:
  "check_date z t s = (case start_civil_date z t s of None \<Rightarrow> Inl OverflowError | Some d \<Rightarrow> Inr d)"
  by (simp add: check_date_def start_civil_date_def date_of_def astimezone_def Let_def
        split: dtval.splits option.splits sum.splits)

lemma start_dt_rr_spec:
  "start_dt_rr z t s =
     (case normalized_anchor z t s of
        None \<Rightarrow> Inl OverflowError
      | Some a \<Rightarrow> Inr \<lparr>wall = a, tzinfo = Some t\<rparr>)"
  by (auto simp: start_dt_rr_def normalized_anchor_def astimezone_def combine_min_def Let_def
        split: dtval.splits option.splits)



lemma parse_component_non_recurring:
  assumes "comp_name c = ''VEVENT''" and "RRULE c = None" and "DTSTART c = Some s"
    and "valid_date target" and "target \<noteq> date_max"
  shows "parse_component z rs t cal_name target c (data, lg) =
     (case start_civil_date z t s of
        None \<Rightarrow> (data, lg, Some OverflowError)
      | Some d \<Rightarrow>
          if d \<noteq> target
          then (data, lg @ [(DEBUG, ''Skipping non-matching date event: %s (%s)'')], None)
          else (case event_of z t cal_name c s (DTEND c) of
                  Inl e \<Rightarrow> (data, lg, Some e)
                | Inr ev \<Rightarrow> (data\<lparr>events := events data @ [ev]\<rparr>,
                              lg @ [(DEBUG, ''Added event: %s (%s)'')], None)))"
  using assms add_days_next [OF assms(4,5)]
  by (simp add: parse_component_def add_event_def check_date_spec event_of_def summary_of_def
        Let_def split: option.splits sum.splits)

text \<open>
  What holds of the non-recurring branch on every target date but the last: the parser
  appends an event exactly when the civil date of the start, in the words of the
  specification, is the target date, unless the conversion of the end leaves the range
  of timestamps.
\<close>

lemma non_recurring_start_date:
  assumes "comp_name c = ''VEVENT''" and "RRULE c = None" and "DTSTART c = Some s"
    and "valid_date target" and "target \<noteq> date_max"
  shows "events (fst (parse_component z rs t cal_name target c (data, lg))) =
           (if start_civil_date z t s = Some target
            then (case event_of z t cal_name c s (DTEND c) of
                    Inr ev \<Rightarrow> events data @ [ev]
                  | Inl e \<Rightarrow> events data)
            else events data)"
  using parse_component_non_recurring [OF assms, of z rs t cal_name data lg]
  by (auto split: option.splits sum.splits)

lemma parse_component_last_date:
  assumes "comp_name c = ''VEVENT''" and "DTSTART c = Some s"
  shows "parse_component z rs t cal_name date_max c (data, lg) = (data, lg, Some OverflowError)"
  using assms by (simp add: parse_component_def add_days_last)





lemma parse_component_recurring:
  assumes "comp_name c = ''VEVENT''" and "DTSTART c = Some s" and "RRULE c = Some rp"
    and "valid_date target" and "target \<noteq> date_max"
  shows "parse_component z rs t cal_name target c (data, lg) =
     (case check_recurrence z rs t (combine_min target t) (combine_min (target + 1) t) rp s
             (DTEND c) of
        (Skip, l) \<Rightarrow> (data, lg @ l, None)
      | (Keep s' e', l) \<Rightarrow>
          (case event_of z t cal_name c s' e' of
             Inl e \<Rightarrow> (data, lg @ l, Some e)
           | Inr ev \<Rightarrow>
               (data\<lparr>events := events data @ [ev]\<rparr>,
                lg @ l @ [(DEBUG, ''Added event: %s (%s)'')], None)))"
  using assms add_days_next [OF assms(4,5)]
  by (simp add: parse_component_def add_event_def event_of_def summary_of_def Let_def
        split: prod.splits recurrence.splits sum.splits)


lemma check_recurrence_failure:
  assumes "rrule_truthy rp" and "rr_ical_of rp = Inr rr_ical"
    and "normalized_anchor z t s = Some a"
    and "rs rr_ical a = Inl e
         \<or> (\<exists>rule. rs rr_ical a = Inr rule
               \<and> between_inc rule (target * usec_per_day) ((target + 1) * usec_per_day) False = Inl e)"
  shows "\<exists>l. check_recurrence z rs t (combine_min target t) (combine_min (target + 1) t) rp s en =
             (Keep s en, l)
           \<and> (WARNING, ''Failed to check recurrence for %s: %s'') \<in> set l"
  using assms
  by (auto simp: check_recurrence_def Let_def combine_min_def start_dt_rr_spec)


lemma add_event_local:
  "add_event z t cn c s e (data, lg) =
     (case add_event z t cn c s e (data\<lparr>events := []\<rparr>, []) of
        (d0, l0, r) \<Rightarrow> (data\<lparr>events := events data @ events d0\<rparr>, lg @ l0, r))"
  by (simp add: add_event_def split: sum.splits)

lemma parse_component_local:
  "parse_component z rs t cn target c (data, lg) =
     (case parse_component z rs t cn target c (data\<lparr>events := []\<rparr>, []) of
        (d0, l0, r) \<Rightarrow> (data\<lparr>events := events data @ events d0\<rparr>, lg @ l0, r))"
  by (simp add: parse_component_def add_event_def Let_def
        split: sum.splits option.splits prod.splits recurrence.splits)

lemma parse_event_local:
  "parse_event z rs t cn target comps (data, lg) =
     (case parse_event z rs t cn target comps (data\<lparr>events := []\<rparr>, []) of
        (d0, l0, r) \<Rightarrow> (data\<lparr>events := events data @ events d0\<rparr>, lg @ l0, r))"
proof (induction comps arbitrary: data lg)
  case Nil
  then show ?case by simp
next
  case (Cons c comps)
  obtain d0 l0 r where c0: "parse_component z rs t cn target c (data\<lparr>events := []\<rparr>, []) = (d0, l0, r)"
    by (cases "parse_component z rs t cn target c (data\<lparr>events := []\<rparr>, [])") auto
  have c1: "parse_component z rs t cn target c (data, lg) =
              (data\<lparr>events := events data @ events d0\<rparr>, lg @ l0, r)"
    using parse_component_local [of z rs t cn target c data lg] c0 by simp
  have "d0 = data\<lparr>events := events d0\<rparr>"
    using parse_component_local [of z rs t cn target c "data\<lparr>events := []\<rparr>" "[]"] c0 by simp
  then have d0: "d0\<lparr>events := X\<rparr> = data\<lparr>events := X\<rparr>" for X
    by (cases d0, cases data) simp
  show ?case
  proof (cases r)
    case (Some e)
    with c0 c1 show ?thesis by simp
  next
    case None
    obtain d1 l1 r1 where e0: "parse_event z rs t cn target comps (data\<lparr>events := []\<rparr>, []) = (d1, l1, r1)"
      by (cases "parse_event z rs t cn target comps (data\<lparr>events := []\<rparr>, [])") auto
    have a: "parse_event z rs t cn target comps (data\<lparr>events := events data @ events d0\<rparr>, lg @ l0) =
          (data\<lparr>events := (events data @ events d0) @ events d1\<rparr>, (lg @ l0) @ l1, r1)"
      using Cons.IH [of "data\<lparr>events := events data @ events d0\<rparr>" "lg @ l0"] e0 by simp
    have b: "parse_event z rs t cn target comps (d0, l0) =
          (data\<lparr>events := events d0 @ events d1\<rparr>, l0 @ l1, r1)"
      using Cons.IH [of d0 l0] e0 by (simp add: d0)
    from None c0 c1 a b show ?thesis by simp
  qed
qed

lemma parse_results_local:
  "parse_results z rs t cn target results (data, lg) =
     (case parse_results z rs t cn target results (data\<lparr>events := []\<rparr>, []) of
        (d0, l0) \<Rightarrow> (data\<lparr>events := events data @ events d0\<rparr>, lg @ l0))"
proof (induction results arbitrary: data lg)
  case Nil
  then show ?case by simp
next
  case (Cons x results)
  define w where "w = (WARNING, ''Failed to parse event from %s: %s'')"
  obtain d1 l1 where e0: "parse_results z rs t cn target results (data\<lparr>events := []\<rparr>, []) = (d1, l1)"
    by (cases "parse_results z rs t cn target results (data\<lparr>events := []\<rparr>, [])")
  have ih: "parse_results z rs t cn target results (data\<lparr>events := E\<rparr>, L) =
          (data\<lparr>events := E @ events d1\<rparr>, L @ l1)" for E L
    using Cons.IH [of "data\<lparr>events := E\<rparr>" L] e0 by simp
  show ?case
  proof (cases x)
    case (Inl e)
    have "parse_results z rs t cn target (x # results) (data, lg) =
          parse_results z rs t cn target results (data\<lparr>events := events data\<rparr>, lg @ [w])"
      using Inl by (simp add: w_def)
    moreover have "parse_results z rs t cn target (x # results) (data\<lparr>events := []\<rparr>, []) =
          parse_results z rs t cn target results (data\<lparr>events := []\<rparr>, [] @ [w])"
      using Inl by (simp add: w_def)
    ultimately show ?thesis by (simp only: ih) simp
  next
    case (Inr comps)
    obtain d0 l0 r where p0: "parse_event z rs t cn target comps (data\<lparr>events := []\<rparr>, []) = (d0, l0, r)"
      by (cases "parse_event z rs t cn target comps (data\<lparr>events := []\<rparr>, [])") auto
    have p1: "parse_event z rs t cn target comps (data, lg) =
              (data\<lparr>events := events data @ events d0\<rparr>, lg @ l0, r)"
      using parse_event_local [of z rs t cn target comps data lg] p0 by simp
    have d0: "d0 = data\<lparr>events := events d0\<rparr>"
      using parse_event_local [of z rs t cn target comps "data\<lparr>events := []\<rparr>" "[]"] p0 by simp
    have q0: "parse_results z rs t cn target results (d0, L') =
              parse_results z rs t cn target results (data\<lparr>events := events d0\<rparr>, L')" for L'
      using d0 by (cases d0, cases data) simp
    define L where "L = (case r of None \<Rightarrow> l0 | Some e \<Rightarrow> l0 @ [w])"
    have "parse_results z rs t cn target (x # results) (data, lg) =
          parse_results z rs t cn target results (data\<lparr>events := events data @ events d0\<rparr>, lg @ L)"
      using Inr p1 by (simp add: w_def L_def split: option.splits)
    moreover have "parse_results z rs t cn target (x # results) (data\<lparr>events := []\<rparr>, []) =
          parse_results z rs t cn target results (data\<lparr>events := events d0\<rparr>, L)"
      using Inr p0 by (simp add: w_def L_def q0 split: option.splits)
    ultimately show ?thesis by (simp only: ih) simp
  qed
qed

text \<open>
  What holds of a failing rule on every target date but the last, when the event can be
  built: the event built from the original start and end is appended, a warning is among
  the records the component adds, and the events of the whole batch are the old ones,
  this event, and the events the remaining components and results give on their own.
\<close>

lemma recurrence_failure_keeps_event:
  assumes "comp_name c = ''VEVENT''" and "DTSTART c = Some s" and "RRULE c = Some rp"
    and "valid_date target" and "target \<noteq> date_max"
    and "rrule_truthy rp" and "rr_ical_of rp = Inr rr_ical"
    and "normalized_anchor z t s = Some a"
    and "rs rr_ical a = Inl e
         \<or> (\<exists>rule. rs rr_ical a = Inr rule
               \<and> between_inc rule (target * usec_per_day) ((target + 1) * usec_per_day) False = Inl e)"
    and "event_of z t cal_name c s (DTEND c) = Inr ev"
  shows "(\<exists>l. parse_component z rs t cal_name target c (data, lg) =
               (data\<lparr>events := events data @ [ev]\<rparr>, lg @ l, None)
            \<and> (WARNING, ''Failed to check recurrence for %s: %s'') \<in> set l)
       \<and> events (fst (parse_results z rs t cal_name target (Inr (c # comps) # results) (data, lg))) =
           events data @ [ev] @
           events (fst (parse_results z rs t cal_name target (Inr comps # results)
                          (data\<lparr>events := []\<rparr>, [])))"
proof -
  have "\<exists>l. check_recurrence z rs t (combine_min target t) (combine_min (target + 1) t) rp s
               (DTEND c) = (Keep s (DTEND c), l)
           \<and> (WARNING, ''Failed to check recurrence for %s: %s'') \<in> set l"
    using assms(6-9) by (rule check_recurrence_failure)
  then obtain l
    where l: "check_recurrence z rs t (combine_min target t) (combine_min (target + 1) t) rp s
                (DTEND c) = (Keep s (DTEND c), l)"
      and w: "(WARNING, ''Failed to check recurrence for %s: %s'') \<in> set l" by blast
  define l' where "l' = l @ [(DEBUG, ''Added event: %s (%s)'')]"
  have pc: "parse_component z rs t cal_name target c (data, lg) =
             (data\<lparr>events := events data @ [ev]\<rparr>, lg @ l', None)"
    using parse_component_recurring [OF assms(1-5), of z rs t cal_name data lg] l assms(10)
    by (simp add: l'_def)
  have w': "(WARNING, ''Failed to check recurrence for %s: %s'') \<in> set l'"
    using w by (simp add: l'_def)
  have "parse_results z rs t cal_name target (Inr (c # comps) # results) (data, lg) =
        parse_results z rs t cal_name target (Inr comps # results)
          (data\<lparr>events := events data @ [ev]\<rparr>, lg @ l')"
    using pc by simp
  also have "\<dots> =
        (case parse_results z rs t cal_name target (Inr comps # results)
                (data\<lparr>events := []\<rparr>, []) of
           (d0, l0) \<Rightarrow> (data\<lparr>events := (events data @ [ev]) @ events d0\<rparr>, (lg @ l') @ l0))"
    using parse_results_local [of z rs t cal_name target "Inr comps # results"
            "data\<lparr>events := events data @ [ev]\<rparr>" "lg @ l'"]
    by simp
  finally have "events (fst (parse_results z rs t cal_name target (Inr (c # comps) # results)
                               (data, lg))) =
           events data @ [ev] @
           events (fst (parse_results z rs t cal_name target (Inr comps # results)
                          (data\<lparr>events := []\<rparr>, [])))"
    by (simp split: prod.splits)
  with pc w' show ?thesis by blast
qed




text \<open>
  The cases the amended C2 leaves out, where an exception decides. On the last date the
  parser leaves with \<^verbatim>\<open>OverflowError\<close> before the rule is looked at. With a naive or a
  bare-date end on a timestamp start, \<^verbatim>\<open>dtend_val - orig_start\<close> raises \<^verbatim>\<open>TypeError\<close>, which is
  caught, and start and end stay un-shifted although the rule has an occurrence in the
  window. When the instance plus the duration is past the last timestamp, the start is
  the instance and the end stays the original one.
\<close>

lemma recurrence_cases_left_out:
  "parse_component sample_zones sample_rrulestr 2 ''Work'' date_max
     (sample_component (DateTime (stamp (date_max - 2) 9 (Some 2))) None
        (Some (VRecur ''FREQ=DAILY;COUNT=5''))) (empty_day, []) =
     (empty_day, [], Some OverflowError)
   \<and> fst (check_recurrence sample_zones sample_rrulestr 2 (combine_min 12 2) (combine_min 13 2)
            (VRecur ''FREQ=DAILY;COUNT=5'') (DateTime (stamp 10 9 None))
            (Some (DateTime (stamp 10 10 None)))) =
       Keep (DateTime (stamp 10 9 None)) (Some (DateTime (stamp 10 10 None)))
   \<and> fst (check_recurrence sample_zones sample_rrulestr 2 (combine_min 12 2) (combine_min 13 2)
            (VRecur ''FREQ=DAILY;COUNT=5'') (DateTime (stamp 10 9 (Some 2))) (Some (Date 11))) =
       Keep (DateTime (stamp 10 9 (Some 2))) (Some (Date 11))
   \<and> fst (check_recurrence sample_zones sample_rrulestr 2
            (combine_min (date_max - 1) 2) (combine_min date_max 2)
            (VRecur ''FREQ=DAILY;COUNT=5'') (DateTime (stamp (date_max - 3) 9 (Some 2)))
            (Some (DateTime (stamp date_max 8 (Some 2))))) =
       Keep (DateTime (stamp (date_max - 1) 9 (Some 2)))
            (Some (DateTime (stamp date_max 8 (Some 2))))"
  by code_simp



end
